theory Spec2Isabelle
  imports Main "HOL-Library.Char_ord" "HOL-Library.List_Lexorder" "HOL-Library.Multiset"
begin

section \<open>The expense tracker of \<open>Expense_Tracker.py\<close>\<close>

text \<open>
  The class \<open>ExpenseTracker\<close> keeps a list of expense dictionaries in memory and writes
  the whole list to a file after every mutation. The embedding below follows the source
  method by method. Exceptions are values of type \<open>error\<close>; a method that can raise
  returns \<open>error + result\<close>.

  A character is a code point below 256 and a string a list of them; on these the
  functions \<open>strip\<close>, \<open>lower\<close> and \<open>int\<close> below are those of the interpreter, and strings
  compare as Python compares them, code point by code point. Amounts are Python floats in
  the source; here they are values of a type variable carrying only \<open>0\<close> and \<open>+\<close>, with no
  algebraic law assumed, so that what is proved does not depend on rounding. The ids of
  the stored dictionaries are strings, as \<open>add_expense\<close> writes them.

  Writing the file is taken to succeed. The methods \<open>_load\<close>, \<open>search\<close> and \<open>export_csv\<close>
  and the menu loop \<open>cli\<close> play no part in what is proved and are left out.
\<close>

datatype error =
  ValueError | TypeError | KeyError | AttributeError | OverflowError | FileNotFoundError

subsection \<open>Strings and decimal numerals\<close>

text \<open>
  \<open>str.strip()\<close> removes leading and trailing white space: the characters for which
  \<open>str.isspace\<close> holds, among them the separators \<open>0x1C\<close> to \<open>0x1F\<close>, the next-line
  control \<open>0x85\<close> and the no-break space \<open>0xA0\<close>.
\<close>

definition is_space :: "char \<Rightarrow> bool" where
  "is_space c = (c \<in> set [CHR '' '', CHR 0x09, CHR 0x0A, CHR 0x0B, CHR 0x0C, CHR 0x0D,
                            CHR 0x1C, CHR 0x1D, CHR 0x1E, CHR 0x1F, CHR 0x85, CHR 0xA0])"

definition strip :: "string \<Rightarrow> string" where
  "strip s = rev (dropWhile is_space (rev (dropWhile is_space s)))"

text \<open>
  \<open>str.lower()\<close>: the capital letters, \<open>A\<close> to \<open>Z\<close> and \<open>0xC0\<close> to \<open>0xDE\<close> (the
  multiplication sign \<open>0xD7\<close> is none), become the small letters 32 code points above
  them; every other character stays.
\<close>

definition is_upper :: "char \<Rightarrow> bool" where
  "is_upper c = ((CHR ''A'' \<le> c \<and> c \<le> CHR ''Z'') \<or>
                 (CHR 0xC0 \<le> c \<and> c \<le> CHR 0xDE \<and> c \<noteq> CHR 0xD7))"

definition lower_char :: "char \<Rightarrow> char" where
  "lower_char c = (if is_upper c then char_of (of_char c + (32::nat)) else c)"

definition lower :: "string \<Rightarrow> string" where
  "lower s = map lower_char s"

definition is_digit :: "char \<Rightarrow> bool" where
  "is_digit c = (c \<in> set ''0123456789'')"

definition digit_val :: "char \<Rightarrow> nat" where
  "digit_val c = of_char c - 48"

definition digit_char :: "nat \<Rightarrow> char" where
  "digit_char d = ''0123456789'' ! d"

text \<open>
  The interpreter refuses to convert between a string and an integer of more than
  \<open>sys.get_int_max_str_digits()\<close> decimal digits, 4300 unless changed, which the program
  does not do.
\<close>

definition int_max_str_digits :: nat where
  "int_max_str_digits = 4300"

text \<open>
  \<open>str(n)\<close> for an integer: the decimal numeral, with a minus sign when negative;
  \<open>None\<close> stands for the \<open>ValueError\<close> raised when the numeral has too many digits.
\<close>

fun str_nat :: "nat \<Rightarrow> string" where
  "str_nat n = (if n < 10 then [digit_char n] else str_nat (n div 10) @ [digit_char (n mod 10)])"

declare str_nat.simps [simp del]

definition py_str :: "int \<Rightarrow> string option" where
  "py_str i =
     (let ds = str_nat (nat \<bar>i\<bar>) in
      if int_max_str_digits < length ds then None
      else Some (if i < 0 then CHR ''-'' # ds else ds))"

text \<open>
  \<open>int(s)\<close> for a string: white space around the numeral is ignored (for \<open>int\<close> that is
  the set below, without the separators \<open>0x1C\<close> to \<open>0x1F\<close> that \<open>strip\<close> removes), a
  sign may come first, and single underscores may separate digits. Anything else is a
  \<open>ValueError\<close>, here \<open>None\<close>, and so is a numeral of too many digits, leading zeros
  counted.
\<close>

definition is_int_space :: "char \<Rightarrow> bool" where
  "is_int_space c = (c \<in> set [CHR '' '', CHR 0x09, CHR 0x0A, CHR 0x0B, CHR 0x0C, CHR 0x0D,
                                CHR 0x85, CHR 0xA0])"

definition int_strip :: "string \<Rightarrow> string" where
  "int_strip s = rev (dropWhile is_int_space (rev (dropWhile is_int_space s)))"

fun int_digits :: "nat \<Rightarrow> string \<Rightarrow> nat option" where
  "int_digits acc [] = Some acc"
| "int_digits acc (c # cs) =
     (if is_digit c then int_digits (acc * 10 + digit_val c) cs
      else if c = CHR ''_'' then
        (case cs of
           [] \<Rightarrow> None
         | d # ds \<Rightarrow> if is_digit d then int_digits (acc * 10 + digit_val d) ds else None)
      else None)"

definition nat_literal :: "string \<Rightarrow> nat option" where
  "nat_literal s =
     (case s of
        [] \<Rightarrow> None
      | d # ds \<Rightarrow> if is_digit d then int_digits (digit_val d) ds else None)"

definition py_int :: "string \<Rightarrow> int option" where
  "py_int s0 =
     (case int_strip s0 of
        [] \<Rightarrow> None
      | c # cs \<Rightarrow>
          (let body = (if c = CHR ''-'' \<or> c = CHR ''+'' then cs else c # cs) in
           case nat_literal body of
             None \<Rightarrow> None
           | Some n \<Rightarrow>
               if int_max_str_digits < length (filter is_digit body) then None
               else Some (if c = CHR ''-'' then - int n else int n)))"

subsection \<open>Dates\<close>

text \<open>
  A \<open>datetime\<close> value. \<open>tzinfo\<close> is \<open>None\<close> for a naive value and the offset for an aware
  one; the program itself only ever builds naive values, but \<open>fromisoformat\<close> returns an
  aware one for a text that carries an offset.
\<close>

record datetime =
  year :: nat
  month :: nat
  day :: nat
  hour :: nat
  minute :: nat
  second :: nat
  microsecond :: nat
  tzinfo :: "int option"

definition is_leap :: "nat \<Rightarrow> bool" where
  "is_leap y = (y mod 4 = 0 \<and> (y mod 100 \<noteq> 0 \<or> y mod 400 = 0))"

definition days_in_month :: "nat \<Rightarrow> nat \<Rightarrow> nat" where
  "days_in_month y m =
     (if m = 2 then (if is_leap y then 29 else 28)
      else if m \<in> set [4, 6, 9, 11] then 30 else 31)"

text \<open>
  \<open>d.strftime("%Y-%m-%d")\<close>, the only format the program writes. The interpreter hands
  the format to the C library, and that of Linux prints the year as it is, without
  padding, and month and day on two digits: the first day of the year 999 is
  \<open>999-01-01\<close>. From the year 1000 on the year has its four digits.
\<close>

definition zfill :: "nat \<Rightarrow> string \<Rightarrow> string" where
  "zfill w s = replicate (w - length s) (CHR ''0'') @ s"

definition strftime :: "datetime \<Rightarrow> string" where
  "strftime d =
     str_nat (year d) @ ''-'' @ zfill 2 (str_nat (month d)) @ ''-'' @
     zfill 2 (str_nat (day d))"

text \<open>
  \<open>datetime.strptime(text, fmt)\<close> for formats made of the directives \<open>%Y\<close>, \<open>%m\<close>, \<open>%d\<close>
  and literal characters other than white space, which is all the program uses. The
  library turns the format into a regular expression, one group of alternatives per
  directive, and takes the first match in backtracking order:
  \<^verbatim>\<open>%Y = \d\d\d\d\<close>, \<^verbatim>\<open>%m = 1[0-2]|0[1-9]|[1-9]\<close>,
  \<^verbatim>\<open>%d = 3[0-1]|[1-2]\d|0[1-9]|[1-9]| [1-9]\<close>.
  \<open>directive_alts\<close> lists the matches of one directive at the head of the text in that
  order, each with the text left over; \<open>match_items\<close> lists the matches of a whole format
  in backtracking order, so its head is the match the library finds.
\<close>

datatype fmt_item = Directive char | Literal char

fun fmt_items :: "string \<Rightarrow> fmt_item list" where
  "fmt_items [] = []"
| "fmt_items [c] = [Literal c]"
| "fmt_items (c # d # cs) =
     (if c = CHR ''%'' then Directive d # fmt_items cs else Literal c # fmt_items (d # cs))"

definition two_chars :: "string \<Rightarrow> string \<Rightarrow> string \<Rightarrow> (nat \<times> string) list" where
  "two_chars cls1 cls2 s =
     (case s of
        a # b # rest \<Rightarrow>
          if a \<in> set cls1 \<and> b \<in> set cls2
          then [((if is_digit a then digit_val a * 10 else 0) + digit_val b, rest)] else []
      | _ \<Rightarrow> [])"

definition one_char :: "string \<Rightarrow> string \<Rightarrow> (nat \<times> string) list" where
  "one_char cls s =
     (case s of
        a # rest \<Rightarrow> if a \<in> set cls then [(digit_val a, rest)] else []
      | _ \<Rightarrow> [])"

definition four_digits :: "string \<Rightarrow> (nat \<times> string) list" where
  "four_digits s =
     (case s of
        a # b # c # d # rest \<Rightarrow>
          if is_digit a \<and> is_digit b \<and> is_digit c \<and> is_digit d
          then [(digit_val a * 1000 + digit_val b * 100 + digit_val c * 10 + digit_val d, rest)]
          else []
      | _ \<Rightarrow> [])"

definition directive_alts :: "char \<Rightarrow> string \<Rightarrow> (nat \<times> string) list" where
  "directive_alts c s =
     (if c = CHR ''Y'' then four_digits s
      else if c = CHR ''m'' then
        two_chars ''1'' ''012'' s @ two_chars ''0'' ''123456789'' s @ one_char ''123456789'' s
      else if c = CHR ''d'' then
        two_chars ''3'' ''01'' s @ two_chars ''12'' ''0123456789'' s @
        two_chars ''0'' ''123456789'' s @ one_char ''123456789'' s @
        two_chars '' '' ''123456789'' s
      else [])"

fun match_items :: "fmt_item list \<Rightarrow> string \<Rightarrow> ((char \<times> nat) list \<times> string) list" where
  "match_items [] s = [([], s)]"
| "match_items (Literal c # items) s =
     (case s of
        [] \<Rightarrow> []
      | x # xs \<Rightarrow> if lower_char x = lower_char c then match_items items xs else [])"
| "match_items (Directive c # items) s =
     concat (map (\<lambda>(v, rest). map (\<lambda>(fs, r). ((c, v) # fs, r)) (match_items items rest))
                 (directive_alts c s))"

text \<open>
  After the match: text left over is an error (``unconverted data remains''), a
  directive that is absent takes the library's default, and the date must exist
  (\<open>year \<ge> 1\<close>, the day within the month). Every failure is a \<open>ValueError\<close>, here \<open>None\<close>.
\<close>

definition field_or :: "(char \<times> nat) list \<Rightarrow> char \<Rightarrow> nat \<Rightarrow> nat" where
  "field_or fs c dflt = (case map_of fs c of None \<Rightarrow> dflt | Some v \<Rightarrow> v)"

definition strptime :: "string \<Rightarrow> string \<Rightarrow> datetime option" where
  "strptime text fmt =
     (case match_items (fmt_items fmt) text of
        [] \<Rightarrow> None
      | (fs, rest) # _ \<Rightarrow>
          if rest \<noteq> [] then None
          else
            (let y = field_or fs (CHR ''Y'') 1900;
                 m = field_or fs (CHR ''m'') 1;
                 d = field_or fs (CHR ''d'') 1
             in if 1 \<le> y \<and> 1 \<le> m \<and> m \<le> 12 \<and> 1 \<le> d \<and> d \<le> days_in_month y m
                then Some \<lparr>year = y, month = m, day = d, hour = 0, minute = 0, second = 0,
                            microsecond = 0, tzinfo = None\<rparr>
                else None))"

text \<open>
  What the program takes from its surroundings: the clock read by \<open>datetime.today()\<close>
  (one reading for the length of a call), the library's \<open>datetime.fromisoformat\<close>
  (whose accepted syntax depends on the interpreter's version; \<open>None\<close> stands for its
  \<open>ValueError\<close>), the conversions of \<open>float(...)\<close> from an integer and from a string
  (\<open>None\<close> for \<open>OverflowError\<close> and \<open>ValueError\<close>), and the builtin \<open>sum\<close> on a list of
  floats, which adds from left to right up to version 3.11 of the interpreter and with
  compensation for the rounding from 3.12 on.
\<close>

record 'a runtime =
  today :: datetime
  fromisoformat :: "string \<Rightarrow> datetime option"
  float_of_int :: "int \<Rightarrow> 'a option"
  float_of_str :: "string \<Rightarrow> 'a option"
  builtin_sum :: "'a list \<Rightarrow> 'a"

text \<open>\<open>parse_date\<close>: the loop over the three formats, then the ISO parse.\<close>

fun try_formats :: "string \<Rightarrow> string list \<Rightarrow> datetime option" where
  "try_formats text [] = None"
| "try_formats text (fmt # fmts) =
     (case strptime text fmt of
        Some d \<Rightarrow> Some d
      | None \<Rightarrow> try_formats text fmts)"

definition parse_date :: "'a runtime \<Rightarrow> string \<Rightarrow> error + datetime" where
  "parse_date rt text0 =
     (let text = strip text0 in
      if text = [] \<or> lower text \<in> set [''today'', ''t''] then Inr (today rt)
      else
        (case try_formats text [''%Y-%m-%d'', ''%d-%m-%Y'', ''%d/%m/%Y''] of
           Some d \<Rightarrow> Inr d
         | None \<Rightarrow>
             (case fromisoformat rt text of
                Some d \<Rightarrow> Inr d
              | None \<Rightarrow> Inl ValueError)))"

subsection \<open>Records and the store\<close>

text \<open>
  One expense dictionary, with the keys \<open>id\<close>, \<open>amount\<close>, \<open>category\<close>, \<open>date\<close>, \<open>note\<close>
  (the fields \<open>id_e\<close> and \<open>note_e\<close> carry a suffix, the plain names being taken).
\<close>

record 'a expense =
  id_e :: string
  amount :: 'a
  category :: string
  date :: string
  note_e :: string

text \<open>
  The tracker object: \<open>expenses\<close> is \<open>self.expenses\<close>, \<open>saved\<close> is the list last written
  to \<open>self.path\<close> by \<open>_save\<close>.
\<close>

record 'a tracker =
  expenses :: "'a expense list"
  saved :: "'a expense list"

definition save :: "'a tracker \<Rightarrow> 'a tracker" where
  "save s = s\<lparr>saved := expenses s\<rparr>"

subsection \<open>Lookup and deletion\<close>

text \<open>
  \<open>find_by_id\<close> returns a reference to the first dictionary whose \<open>id\<close> equals the
  argument; the reference is modelled as the position of that dictionary in the list.
\<close>

fun find_by_id_in :: "'a expense list \<Rightarrow> string \<Rightarrow> nat option" where
  "find_by_id_in [] id_str = None"
| "find_by_id_in (e # es) id_str =
     (if id_e e = id_str then Some 0 else map_option Suc (find_by_id_in es id_str))"

definition find_by_id :: "'a tracker \<Rightarrow> string \<Rightarrow> nat option" where
  "find_by_id s id_str = find_by_id_in (expenses s) id_str"

text \<open>
  \<open>delete_expense\<close>: \<open>self.expenses.remove(e)\<close> removes the first element equal to \<open>e\<close>,
  which is what \<open>remove1\<close> does.
\<close>

definition delete_expense :: "'a tracker \<Rightarrow> string \<Rightarrow> bool \<times> 'a tracker" where
  "delete_expense s id_str =
     (case find_by_id s id_str of
        None \<Rightarrow> (False, s)
      | Some i \<Rightarrow> (True, save (s\<lparr>expenses := remove1 (expenses s ! i) (expenses s)\<rparr>)))"

subsection \<open>Adding and editing\<close>

text \<open>
  \<open>_next_id\<close>: 1 for an empty list, else the maximum of \<open>int(e["id"])\<close> plus one; \<open>int\<close>
  raises \<open>ValueError\<close> on an id that is not a numeral. In \<open>add_expense\<close> the call of
  \<open>str\<close> on the next id raises \<open>ValueError\<close> when that has too many digits, before the
  list is touched.
\<close>

definition next_id :: "'a tracker \<Rightarrow> error + int" where
  "next_id s =
     (if expenses s = [] then Inr 1
      else if \<forall>e \<in> set (expenses s). py_int (id_e e) \<noteq> None
      then Inr (Max (set (map (\<lambda>e. the (py_int (id_e e))) (expenses s))) + 1)
      else Inl ValueError)"

definition add_expense ::
  "'a tracker \<Rightarrow> 'a \<Rightarrow> string \<Rightarrow> datetime \<Rightarrow> string \<Rightarrow> error + ('a tracker \<times> 'a expense)" where
  "add_expense s amt cat d nt =
     (case next_id s of
        Inl err \<Rightarrow> Inl err
      | Inr n \<Rightarrow>
          (case py_str n of
             None \<Rightarrow> Inl ValueError
           | Some i \<Rightarrow>
               (let expense = \<lparr>id_e = i, amount = amt, category = strip cat,
                               date = strftime d, note_e = strip nt\<rparr>
                in Inr (save (s\<lparr>expenses := expenses s @ [expense]\<rparr>), expense))))"

text \<open>
  \<open>edit_expense\<close> assigns to the keys of the dictionary that \<open>find_by_id\<close> returned, which
  is an element of the list: the list changes at that position.
\<close>

definition edit_expense ::
  "'a tracker \<Rightarrow> string \<Rightarrow> 'a option \<Rightarrow> string option \<Rightarrow> datetime option \<Rightarrow> string option \<Rightarrow>
     bool \<times> 'a tracker" where
  "edit_expense s id_str amt cat d nt =
     (case find_by_id s id_str of
        None \<Rightarrow> (False, s)
      | Some i \<Rightarrow>
          (let e0 = expenses s ! i;
               e1 = (case amt of None \<Rightarrow> e0 | Some a \<Rightarrow> e0\<lparr>amount := a\<rparr>);
               e2 = (case cat of None \<Rightarrow> e1 | Some c \<Rightarrow> e1\<lparr>category := c\<rparr>);
               e3 = (case d of None \<Rightarrow> e2 | Some dt \<Rightarrow> e2\<lparr>date := strftime dt\<rparr>);
               e4 = (case nt of None \<Rightarrow> e3 | Some n \<Rightarrow> e3\<lparr>note_e := n\<rparr>)
           in (True, save (s\<lparr>expenses := (expenses s)[i := e4]\<rparr>))))"

subsection \<open>Listing, filtering and sums\<close>

text \<open>
  \<open>sorted(xs, key=lambda x: x["date"], reverse=True)\<close>: the sort is stable, and with
  \<open>reverse=True\<close> the list is reversed before and after an ascending stable sort, so
  records with equal dates keep their order. The key is the date string.
\<close>

definition sorted_desc :: "'a expense list \<Rightarrow> 'a expense list" where
  "sorted_desc es = rev (sort_key date (rev es))"

text \<open>The slice \<open>xs[:n]\<close>; a negative \<open>n\<close> counts from the end.\<close>

definition slice_to :: "'b list \<Rightarrow> int \<Rightarrow> 'b list" where
  "slice_to xs n = (if 0 \<le> n then take (nat n) xs else take (length xs - nat (- n)) xs)"

definition list_expenses :: "'a tracker \<Rightarrow> int option \<Rightarrow> 'a expense list" where
  "list_expenses s limit =
     (let sorted_list = sorted_desc (expenses s) in
      case limit of
        None \<Rightarrow> sorted_list
      | Some n \<Rightarrow> if n \<noteq> 0 then slice_to sorted_list n else sorted_list)"

text \<open>
  The comparisons \<open>ed < start\<close> and \<open>ed > end\<close> of \<open>filter_expenses\<close>. The left operand
  is the result of \<open>strptime\<close>, a naive value; comparing it with an aware value raises
  \<open>TypeError\<close>, and two naive values compare field by field.
\<close>

definition dt_key :: "datetime \<Rightarrow> nat list" where
  "dt_key d = [year d, month d, day d, hour d, minute d, second d, microsecond d]"

definition naive_less :: "datetime \<Rightarrow> datetime \<Rightarrow> error + bool" where
  "naive_less ed x = (if tzinfo x \<noteq> None then Inl TypeError else Inr (dt_key ed < dt_key x))"

definition naive_greater :: "datetime \<Rightarrow> datetime \<Rightarrow> error + bool" where
  "naive_greater ed x = (if tzinfo x \<noteq> None then Inl TypeError else Inr (dt_key x < dt_key ed))"

text \<open>
  The body of the loop of \<open>filter_expenses\<close> after the date is parsed: \<open>Inr False\<close> for
  \<open>continue\<close>, \<open>Inr True\<close> when the record is appended. A condition \<open>if category and ...\<close>
  is skipped for \<open>None\<close> and for the empty string; \<open>if start and ...\<close> is skipped for
  \<open>None\<close> only, a \<open>datetime\<close> being always true.
\<close>

definition selects ::
  "string option \<Rightarrow> datetime option \<Rightarrow> datetime option \<Rightarrow> 'a expense \<Rightarrow> datetime \<Rightarrow> error + bool" where
  "selects cat st en e ed =
     (if (case cat of None \<Rightarrow> False | Some c \<Rightarrow> c \<noteq> [] \<and> lower (category e) \<noteq> lower c)
      then Inr False
      else
        (case (case st of None \<Rightarrow> Inr False | Some a \<Rightarrow> naive_less ed a) of
           Inl err \<Rightarrow> Inl err
         | Inr True \<Rightarrow> Inr False
         | Inr False \<Rightarrow>
             (case (case en of None \<Rightarrow> Inr False | Some b \<Rightarrow> naive_greater ed b) of
                Inl err \<Rightarrow> Inl err
              | Inr True \<Rightarrow> Inr False
              | Inr False \<Rightarrow> Inr True)))"

text \<open>The date of a record as the loop reads it: \<open>datetime.strptime(e["date"], "%Y-%m-%d")\<close>.\<close>

definition record_date :: "'a expense \<Rightarrow> datetime option" where
  "record_date e = strptime (date e) ''%Y-%m-%d''"

fun filter_loop ::
  "string option \<Rightarrow> datetime option \<Rightarrow> datetime option \<Rightarrow> 'a expense list \<Rightarrow>
     error + 'a expense list" where
  "filter_loop cat st en [] = Inr []"
| "filter_loop cat st en (e # es) =
     (case record_date e of
        None \<Rightarrow> Inl ValueError
      | Some ed \<Rightarrow>
          (case selects cat st en e ed of
             Inl err \<Rightarrow> Inl err
           | Inr keep \<Rightarrow>
               (case filter_loop cat st en es of
                  Inl err \<Rightarrow> Inl err
                | Inr res \<Rightarrow> Inr (if keep then e # res else res))))"

definition filter_expenses ::
  "'a tracker \<Rightarrow> string option \<Rightarrow> datetime option \<Rightarrow> datetime option \<Rightarrow>
     error + 'a expense list" where
  "filter_expenses s cat st en =
     (case filter_loop cat st en (expenses s) of
        Inl err \<Rightarrow> Inl err
      | Inr res \<Rightarrow> Inr (sorted_desc res))"

text \<open>
  The specification of \<open>filter\<close>, in its words: a record matches when it satisfies every
  supplied predicate, the category by equality regardless of case, the date by lying in
  the inclusive range of the supplied bounds.
\<close>

definition spec_matches ::
  "string option \<Rightarrow> datetime option \<Rightarrow> datetime option \<Rightarrow> 'a expense \<Rightarrow> bool" where
  "spec_matches cat st en e =
     ((case cat of None \<Rightarrow> True | Some c \<Rightarrow> lower (category e) = lower c) \<and>
      (case st of None \<Rightarrow> True | Some a \<Rightarrow> dt_key a \<le> dt_key (the (record_date e))) \<and>
      (case en of None \<Rightarrow> True | Some b \<Rightarrow> dt_key (the (record_date e)) \<le> dt_key b))"


text \<open>
  The dictionary built by \<open>summary_by_category\<close> is a map from category to sum. The loop
  adds with \<open>+\<close>, starting from \<open>0.0\<close> at a new key: the value at a key is the chain of
  additions \<open>py_sum\<close> of the amounts under that key, from left to right.
\<close>

definition py_sum :: "'a::{zero,plus} list \<Rightarrow> 'a" where
  "py_sum xs = foldl (+) 0 xs"

fun summary_loop :: "(string \<rightharpoonup> 'a::{zero,plus}) \<Rightarrow> 'a expense list \<Rightarrow> (string \<rightharpoonup> 'a)" where
  "summary_loop summary [] = summary"
| "summary_loop summary (e # es) =
     summary_loop
       (summary(category e \<mapsto>
          (case summary (category e) of None \<Rightarrow> 0 | Some v \<Rightarrow> v) + amount e)) es"

definition summary_by_category ::
  "('a::{zero,plus}) tracker \<Rightarrow> datetime option \<Rightarrow> datetime option \<Rightarrow> error + (string \<rightharpoonup> 'a)" where
  "summary_by_category s st en =
     (case filter_expenses s None st en of
        Inl err \<Rightarrow> Inl err
      | Inr selected \<Rightarrow> Inr (summary_loop Map.empty selected))"

subsection \<open>Import\<close>

text \<open>
  The file read by \<open>import_from_json\<close> holds an array of objects. A value of a key is
  null, a boolean, an integer, a float, a string, or an array or object (\<open>JNested\<close>); an
  object is the list of its keys, each once, with their values.
\<close>

datatype 'a jval = JNull | JBool bool | JInt int | JFloat 'a | JStr string | JNested

type_synonym 'a jobject = "(string \<times> 'a jval) list"

text \<open>\<open>float(v)\<close> and \<open>v.strip()\<close> for a value read from the file.\<close>

definition py_float :: "'a runtime \<Rightarrow> 'a jval \<Rightarrow> error + 'a" where
  "py_float rt v =
     (case v of
        JNull \<Rightarrow> Inl TypeError
      | JBool b \<Rightarrow> (case float_of_int rt (if b then 1 else 0) of None \<Rightarrow> Inl OverflowError | Some x \<Rightarrow> Inr x)
      | JInt n \<Rightarrow> (case float_of_int rt n of None \<Rightarrow> Inl OverflowError | Some x \<Rightarrow> Inr x)
      | JFloat x \<Rightarrow> Inr x
      | JStr t \<Rightarrow> (case float_of_str rt t of None \<Rightarrow> Inl ValueError | Some x \<Rightarrow> Inr x)
      | JNested \<Rightarrow> Inl TypeError)"

definition as_str :: "'a jval \<Rightarrow> error + string" where
  "as_str v = (case v of JStr t \<Rightarrow> Inr t | _ \<Rightarrow> Inl AttributeError)"

definition get_or :: "'a jobject \<Rightarrow> string \<Rightarrow> 'a jval \<Rightarrow> 'a jval" where
  "get_or obj k dflt = (case map_of obj k of None \<Rightarrow> dflt | Some v \<Rightarrow> v)"

text \<open>
  The body of the \<open>try\<close> in the loop of \<open>import_from_json\<close>, in the order of evaluation:
  \<open>float(e["amount"])\<close>, \<open>parse_date(e.get("date", ""))\<close>, then inside \<open>add_expense\<close> the
  next id and its numeral, \<open>category.strip()\<close> and \<open>note.strip()\<close>.
\<close>

definition import_record ::
  "'a runtime \<Rightarrow> 'a tracker \<Rightarrow> 'a jobject \<Rightarrow> error + ('a tracker \<times> 'a expense)" where
  "import_record rt s obj =
     (case map_of obj ''amount'' of
        None \<Rightarrow> Inl KeyError
      | Some a \<Rightarrow>
          (case py_float rt a of
             Inl err \<Rightarrow> Inl err
           | Inr amt \<Rightarrow>
               (case as_str (get_or obj ''date'' (JStr [])) of
                  Inl err \<Rightarrow> Inl err
                | Inr dtext \<Rightarrow>
                    (case parse_date rt dtext of
                       Inl err \<Rightarrow> Inl err
                     | Inr d \<Rightarrow>
                         (case next_id s of
                            Inl err \<Rightarrow> Inl err
                          | Inr n \<Rightarrow>
                              (case py_str n of
                                 None \<Rightarrow> Inl ValueError
                               | Some _ \<Rightarrow>
                                   (case as_str
                                      (get_or obj ''category'' (JStr ''uncategorized'')) of
                                      Inl err \<Rightarrow> Inl err
                                    | Inr cat \<Rightarrow>
                                        (case as_str (get_or obj ''note'' (JStr [])) of
                                           Inl err \<Rightarrow> Inl err
                                         | Inr nt \<Rightarrow> add_expense s amt cat d nt))))))))"

text \<open>
  The arguments that the body passes to \<open>add_expense\<close> for an object whose fields all
  convert; \<open>None\<close> when a conversion raises. \<open>numbered\<close> builds the records that
  \<open>add_expense\<close> makes of a list of such arguments, with ids counting up from \<open>n\<close>; it
  ends where \<open>str\<close> refuses the id, since from there on every call of \<open>add_expense\<close>
  raises and the loop drops it.
\<close>

definition parsed_fields ::
  "'a runtime \<Rightarrow> 'a jobject \<Rightarrow> ('a \<times> string \<times> datetime \<times> string) option" where
  "parsed_fields rt obj =
     (case map_of obj ''amount'' of
        None \<Rightarrow> None
      | Some a \<Rightarrow>
          (case (py_float rt a, as_str (get_or obj ''date'' (JStr [])),
                 as_str (get_or obj ''category'' (JStr ''uncategorized'')),
                 as_str (get_or obj ''note'' (JStr []))) of
             (Inr amt, Inr dtext, Inr cat, Inr nt) \<Rightarrow>
               (case parse_date rt dtext of
                  Inl err \<Rightarrow> None
                | Inr d \<Rightarrow> Some (amt, cat, d, nt))
           | _ \<Rightarrow> None))"

fun numbered :: "int \<Rightarrow> ('a \<times> string \<times> datetime \<times> string) list \<Rightarrow> 'a expense list" where
  "numbered n [] = []"
| "numbered n ((amt, cat, d, nt) # rest) =
     (case py_str n of
        None \<Rightarrow> []
      | Some i \<Rightarrow>
          \<lparr>id_e = i, amount = amt, category = strip cat, date = strftime d,
           note_e = strip nt\<rparr> # numbered (n + 1) rest)"

text \<open>The loop: \<open>except Exception: continue\<close> drops the error and keeps the tracker.\<close>

fun import_loop :: "'a runtime \<Rightarrow> 'a tracker \<Rightarrow> 'a jobject list \<Rightarrow> 'a tracker" where
  "import_loop rt s [] = s"
| "import_loop rt s (obj # data) =
     (case import_record rt s obj of
        Inl err \<Rightarrow> import_loop rt s data
      | Inr (s', e) \<Rightarrow> import_loop rt s' data)"

text \<open>\<open>import_from_json\<close>; the file is \<open>None\<close> when the path does not exist.\<close>

definition import_from_json ::
  "'a runtime \<Rightarrow> 'a tracker \<Rightarrow> 'a jobject list option \<Rightarrow> error + 'a tracker" where
  "import_from_json rt s file =
     (case file of
        None \<Rightarrow> Inl FileNotFoundError
      | Some data \<Rightarrow> Inr (import_loop rt s data))"

subsection \<open>Sequences of operations\<close>





text \<open>The integer an id stands for, and the stores all of whose ids are numerals.\<close>

definition id_num :: "'a expense \<Rightarrow> int" where
  "id_num e = the (py_int (id_e e))"

definition numeric_ids :: "'a tracker \<Rightarrow> bool" where
  "numeric_ids s = (\<forall>e \<in> set (expenses s). py_int (id_e e) \<noteq> None)"



subsection \<open>Sample data\<close>

definition sample_rt :: "int runtime" where
  "sample_rt =
     \<lparr>today = \<lparr>year = 2024, month = 6, day = 15, hour = 10, minute = 30, second = 0,
                microsecond = 0, tzinfo = None\<rparr>,
      fromisoformat = (\<lambda>t. if t = ''2024-03-05T08:00:00''
          then Some \<lparr>year = 2024, month = 3, day = 5, hour = 8, minute = 0, second = 0,
                      microsecond = 0, tzinfo = None\<rparr>
          else None),
      float_of_int = Some,
      float_of_str = py_int,
      builtin_sum = sum_list\<rparr>"

definition import_data :: "int jobject list" where
  "import_data =
     [[(''amount'', JInt 40), (''category'', JStr '' rent ''), (''date'', JStr ''03/04/2024'')],
      [(''amount'', JStr ''abc''), (''category'', JStr ''food'')]]"

definition midnight :: "nat \<Rightarrow> nat \<Rightarrow> nat \<Rightarrow> datetime" where
  "midnight y m d = \<lparr>year = y, month = m, day = d, hour = 0, minute = 0, second = 0,
                      microsecond = 0, tzinfo = None\<rparr>"


definition lunch :: "int expense" where
  "lunch = \<lparr>id_e = ''1'', amount = 12, category = ''Food'', date = ''2024-01-01'', note_e = ''lunch''\<rparr>"

definition taxi :: "int expense" where
  "taxi = \<lparr>id_e = ''2'', amount = 30, category = ''transport'', date = ''2024-01-05'', note_e = []\<rparr>"

definition snack :: "int expense" where
  "snack = \<lparr>id_e = ''3'', amount = 5, category = ''food'', date = ''2024-01-03'', note_e = ''snack''\<rparr>"

definition store3 :: "int tracker" where
  "store3 = \<lparr>expenses = [lunch, taxi, snack], saved = [lunch, taxi, snack]\<rparr>"

definition store_abc :: "int tracker" where
  "store_abc = \<lparr>expenses = [lunch\<lparr>id_e := ''abc''\<rparr>], saved = [lunch\<lparr>id_e := ''abc''\<rparr>]\<rparr>"

section \<open>Properties\<close>

subsection \<open>Decimal numerals\<close>

lemma digit_char_props:
  assumes "d < 10"
  shows "is_digit (digit_char d)" "digit_val (digit_char d) = d"
proof -
  from assms have "d \<in> {0, 1, 2, 3, 4, 5, 6, 7, 8, 9}" by auto
  then show "is_digit (digit_char d)" "digit_val (digit_char d) = d"
    by (auto simp: is_digit_def digit_val_def digit_char_def)
qed

lemma is_digit_not_space: "is_digit c \<Longrightarrow> \<not> is_int_space c"
  by (auto simp: is_digit_def is_int_space_def)

lemma str_nat_digits: "\<forall>c \<in> set (str_nat n). is_digit c"
proof (induction n rule: str_nat.induct)
  case (1 n)
  show ?case
  proof (cases "n < 10")
    case True
    then show ?thesis by (simp add: str_nat.simps [of n] digit_char_props)
  next
    case False
    with 1 show ?thesis by (simp add: str_nat.simps [of n] digit_char_props)
  qed
qed

lemma str_nat_nonempty: "str_nat n \<noteq> []"
  by (simp add: str_nat.simps [of n])

lemma int_digits_all_digits:
  "\<forall>c \<in> set ds. is_digit c \<Longrightarrow>
     int_digits acc ds = Some (foldl (\<lambda>a c. a * 10 + digit_val c) acc ds)"
  by (induction ds arbitrary: acc) auto

lemma foldl_str_nat: "foldl (\<lambda>a c. a * 10 + digit_val c) 0 (str_nat n) = n"
proof (induction n rule: str_nat.induct)
  case (1 n)
  show ?case
  proof (cases "n < 10")
    case True
    then show ?thesis by (simp add: str_nat.simps [of n] digit_char_props)
  next
    case False
    with 1 show ?thesis by (simp add: str_nat.simps [of n] digit_char_props)
  qed
qed

lemma nat_literal_str_nat: "nat_literal (str_nat n) = Some n"
proof -
  obtain d ds where eq: "str_nat n = d # ds"
    using str_nat_nonempty [of n] by (cases "str_nat n") auto
  with str_nat_digits [of n] have d: "is_digit d" and ds: "\<forall>c \<in> set ds. is_digit c"
    by auto
  have "foldl (\<lambda>a c. a * 10 + digit_val c) 0 (d # ds) = n"
    using foldl_str_nat [of n] eq by simp
  then have "foldl (\<lambda>a c. a * 10 + digit_val c) (digit_val d) ds = n" by simp
  with d ds eq show ?thesis
    by (simp add: nat_literal_def int_digits_all_digits)
qed

lemma int_strip_no_space:
  assumes "s \<noteq> []" "\<not> is_int_space (hd s)" "\<not> is_int_space (last s)"
  shows "int_strip s = s"
proof -
  from assms have a: "dropWhile is_int_space s = s" by (cases s) auto
  from assms have "rev s \<noteq> []" "\<not> is_int_space (hd (rev s))" by (auto simp: hd_rev)
  then have "dropWhile is_int_space (rev s) = rev s" by (cases "rev s") auto
  with a show ?thesis by (simp add: int_strip_def)
qed

lemma str_nat_ends:
  "\<not> is_int_space (hd (str_nat n))" "\<not> is_int_space (last (str_nat n))"
  using str_nat_digits [of n] str_nat_nonempty [of n] is_digit_not_space
  by (metis hd_in_set, metis last_in_set)

lemma int_strip_str_nat: "int_strip (str_nat n) = str_nat n"
  by (rule int_strip_no_space) (simp_all add: str_nat_nonempty str_nat_ends)

lemma int_strip_minus_str_nat: "int_strip (CHR ''-'' # str_nat n) = CHR ''-'' # str_nat n"
proof (rule int_strip_no_space)
  show "\<not> is_int_space (hd (CHR ''-'' # str_nat n))" by (simp add: is_int_space_def)
  show "\<not> is_int_space (last (CHR ''-'' # str_nat n))"
    by (simp add: str_nat_nonempty str_nat_ends)
qed simp

lemma filter_digits_str_nat: "filter is_digit (str_nat n) = str_nat n"
  using str_nat_digits [of n] by (simp add: filter_id_conv)

text \<open>Reading back the numeral that \<open>str\<close> wrote gives the integer.\<close>

lemma py_int_py_str:
  assumes "py_str i = Some t"
  shows "py_int t = Some i"
proof -
  let ?ds = "str_nat (nat \<bar>i\<bar>)"
  from assms have len: "\<not> int_max_str_digits < length ?ds"
    and t: "t = (if i < 0 then CHR ''-'' # ?ds else ?ds)"
    by (auto simp: py_str_def Let_def split: if_splits)
  show ?thesis
  proof (cases "i < 0")
    case True
    with t len show ?thesis
      by (simp add: py_int_def int_strip_minus_str_nat nat_literal_str_nat
            filter_digits_str_nat)
  next
    case False
    obtain d ds where eq: "?ds = d # ds"
      using str_nat_nonempty [of "nat \<bar>i\<bar>"] by (cases ?ds) auto
    with str_nat_digits [of "nat \<bar>i\<bar>"] have "is_digit d" by auto
    then have d: "d \<noteq> CHR ''-''" "d \<noteq> CHR ''+''" by (auto simp: is_digit_def)
    have "py_int ?ds = Some i"
      using False eq d len nat_literal_str_nat [of "nat \<bar>i\<bar>"]
        int_strip_str_nat [of "nat \<bar>i\<bar>"] filter_digits_str_nat [of "nat \<bar>i\<bar>"]
      by (simp add: py_int_def)
    with False t show ?thesis by simp
  qed
qed




subsection \<open>Lookup\<close>

lemma find_by_id_in_None: "find_by_id_in es i = None \<longleftrightarrow> i \<notin> id_e ` set es"
  by (induction es) auto

lemma find_by_id_in_Some:
  "find_by_id_in es i = Some k \<Longrightarrow>
     k < length es \<and> id_e (es ! k) = i \<and> (\<forall>x \<in> set (take k es). id_e x \<noteq> i)"
proof (induction es arbitrary: k)
  case Nil
  then show ?case by simp
next
  case (Cons e es)
  show ?case
  proof (cases "id_e e = i")
    case True
    with Cons.prems show ?thesis by simp
  next
    case False
    with Cons.prems obtain j where j: "find_by_id_in es i = Some j" "k = Suc j"
      by auto
    from Cons.IH [OF j(1)] False j(2) show ?thesis by simp
  qed
qed

lemma remove1_nth_first:
  "k < length es \<Longrightarrow> \<forall>x \<in> set (take k es). x \<noteq> es ! k \<Longrightarrow>
     remove1 (es ! k) es = take k es @ drop (Suc k) es"
proof (induction es arbitrary: k)
  case Nil
  then show ?case by simp
next
  case (Cons e es)
  show ?case
  proof (cases k)
    case 0
    then show ?thesis by simp
  next
    case (Suc j)
    with Cons.prems have "j < length es" "\<forall>x \<in> set (take j es). x \<noteq> es ! j" "e \<noteq> es ! j"
      by auto
    with Cons.IH [of j] Suc show ?thesis by simp
  qed
qed

subsection \<open>Deletion\<close>

text \<open>
  Claim C3. \<open>delete_expense\<close> with an id that some record carries returns \<open>True\<close> and
  removes that record: the list splits as \<open>xs @ e # ys\<close> around the first record \<open>e\<close>
  with the id, and the new list is \<open>xs @ ys\<close>. With an id that no record carries it
  returns \<open>False\<close> (a value, no exception) and the tracker, list and file, is the one
  it was given.
\<close>

theorem delete_expense_spec:
  "(id_str \<in> id_e ` set (expenses s) \<longrightarrow>
      (\<exists>xs e ys. expenses s = xs @ e # ys \<and> id_e e = id_str \<and>
         (\<forall>x \<in> set xs. id_e x \<noteq> id_str) \<and>
         delete_expense s id_str = (True, s\<lparr>expenses := xs @ ys, saved := xs @ ys\<rparr>))) \<and>
   (id_str \<notin> id_e ` set (expenses s) \<longrightarrow> delete_expense s id_str = (False, s))"
proof (intro conjI impI)
  assume "id_str \<in> id_e ` set (expenses s)"
  then obtain k where k: "find_by_id_in (expenses s) id_str = Some k"
    using find_by_id_in_None [of "expenses s" id_str] by auto
  let ?es = "expenses s"
  from find_by_id_in_Some [OF k]
  have kl: "k < length ?es" and kid: "id_e (?es ! k) = id_str"
    and kfirst: "\<forall>x \<in> set (take k ?es). id_e x \<noteq> id_str"
    by auto
  from kid kfirst have "\<forall>x \<in> set (take k ?es). x \<noteq> ?es ! k" by auto
  from remove1_nth_first [OF kl this]
  have rm: "remove1 (?es ! k) ?es = take k ?es @ drop (Suc k) ?es" .
  have split: "?es = take k ?es @ (?es ! k) # drop (Suc k) ?es"
    using kl by (simp add: id_take_nth_drop [symmetric])
  have "delete_expense s id_str =
      (True, s\<lparr>expenses := take k ?es @ drop (Suc k) ?es, saved := take k ?es @ drop (Suc k) ?es\<rparr>)"
    using k rm by (simp add: delete_expense_def find_by_id_def save_def)
  with split kid kfirst
  show "\<exists>xs e ys. expenses s = xs @ e # ys \<and> id_e e = id_str \<and>
         (\<forall>x \<in> set xs. id_e x \<noteq> id_str) \<and>
         delete_expense s id_str = (True, s\<lparr>expenses := xs @ ys, saved := xs @ ys\<rparr>)"
    by blast
next
  assume "id_str \<notin> id_e ` set (expenses s)"
  then have "find_by_id_in (expenses s) id_str = None"
    by (simp add: find_by_id_in_None)
  then show "delete_expense s id_str = (False, s)"
    by (simp add: delete_expense_def find_by_id_def)
qed

theorem delete_expense_spec_witness:
  "''2'' \<in> id_e ` set (expenses store3) \<and> ''7'' \<notin> id_e ` set (expenses store3) \<and>
   delete_expense store3 ''2'' = (True, \<lparr>expenses = [lunch, snack], saved = [lunch, snack]\<rparr>) \<and>
   delete_expense store3 ''7'' = (False, store3)"
  using delete_expense_spec [of "''2''" store3] delete_expense_spec [of "''7''" store3]
  by (simp add: store3_def lunch_def taxi_def snack_def delete_expense_def find_by_id_def save_def)

subsection \<open>Evaluation\<close>

text \<open>The equations that run the model on concrete data.\<close>

lemma sample_numerals:
  "py_str 1 = Some ''1''" "py_str 2 = Some ''2''" "py_str 3 = Some ''3''"
  "py_str 4 = Some ''4''"
  "py_int ''1'' = Some 1" "py_int ''2'' = Some 2" "py_int ''3'' = Some 3"
  "py_int ''abc'' = None"
  by (simp_all add: py_str_def py_int_def nat_literal_def int_strip_def is_int_space_def
        is_digit_def digit_val_def digit_char_def str_nat.simps int_max_str_digits_def Let_def)


subsection \<open>Identifiers\<close>

lemma next_id_numeric:
  assumes "numeric_ids s"
  shows "next_id s =
     Inr (if expenses s = [] then 1 else Max (id_num ` set (expenses s)) + 1)"
proof -
  have "(\<lambda>e. the (py_int (id_e e))) = (id_num :: 'a expense \<Rightarrow> int)"
    by (rule ext) (simp add: id_num_def)
  with assms show ?thesis
    by (simp add: next_id_def numeric_ids_def)
qed

lemma next_id_Inr: "next_id s = Inr n \<Longrightarrow> numeric_ids s"
  by (auto simp: next_id_def numeric_ids_def split: if_splits)

lemma next_id_Inl: "next_id s = Inl err \<Longrightarrow> err = ValueError \<and> \<not> numeric_ids s"
  by (auto simp: next_id_def numeric_ids_def split: if_splits)

lemma next_id_above:
  assumes "next_id s = Inr n" "x \<in> set (expenses s)"
  shows "id_num x < n"
proof -
  from assms(2) have ne: "expenses s \<noteq> []" by auto
  with assms(1) next_id_numeric [OF next_id_Inr [OF assms(1)]]
  have n: "n = Max (id_num ` set (expenses s)) + 1" by simp
  have "id_num x \<le> Max (id_num ` set (expenses s))"
    using assms(2) by (intro Max_ge) auto
  with n show ?thesis by simp
qed

text \<open>
  What \<open>add_expense\<close> does on a store whose next id is \<open>n\<close>: it raises when \<open>str\<close> refuses
  \<open>n\<close>, and otherwise appends the record with the numeral of \<open>n\<close> as id, after which the
  next id is \<open>n + 1\<close>.
\<close>

lemma add_expense_raises:
  "next_id s = Inr n \<Longrightarrow> py_str n = None \<Longrightarrow> add_expense s amt cat d nt = Inl ValueError"
  by (simp add: add_expense_def)

lemma add_expense_appends:
  assumes "next_id s = Inr n" "py_str n = Some i"
  shows "\<exists>s'. add_expense s amt cat d nt =
            Inr (s', \<lparr>id_e = i, amount = amt, category = strip cat, date = strftime d,
                      note_e = strip nt\<rparr>) \<and>
          s' = s\<lparr>expenses := expenses s @ [\<lparr>id_e = i, amount = amt, category = strip cat,
                                             date = strftime d, note_e = strip nt\<rparr>],
                 saved := expenses s @ [\<lparr>id_e = i, amount = amt, category = strip cat,
                                          date = strftime d, note_e = strip nt\<rparr>]\<rparr> \<and>
          py_int i = Some n \<and> numeric_ids s' \<and> next_id s' = Inr (n + 1)"
proof -
  let ?e = "\<lparr>id_e = i, amount = amt, category = strip cat, date = strftime d,
             note_e = strip nt\<rparr>"
  let ?s' = "s\<lparr>expenses := expenses s @ [?e], saved := expenses s @ [?e]\<rparr>"
  have add: "add_expense s amt cat d nt = Inr (?s', ?e)"
    using assms by (simp add: add_expense_def save_def Let_def)
  have i: "py_int i = Some n" by (rule py_int_py_str [OF assms(2)])
  then have num: "id_num ?e = n" by (simp add: id_num_def)
  have ok: "numeric_ids ?s'"
    using next_id_Inr [OF assms(1)] i by (simp add: numeric_ids_def)
  have below: "\<forall>x \<in> set (expenses s). id_num x < n"
    using next_id_above [OF assms(1)] by blast
  have "Max (id_num ` set (expenses ?s')) = n"
  proof (rule Max_eqI)
    show "finite (id_num ` set (expenses ?s'))" by simp
    show "n \<in> id_num ` set (expenses ?s')" using num by simp
    fix y assume "y \<in> id_num ` set (expenses ?s')"
    with below num show "y \<le> n" by auto
  qed
  with next_id_numeric [OF ok] have "next_id ?s' = Inr (n + 1)" by simp
  with add i ok show ?thesis by blast
qed







subsection \<open>Editing\<close>

text \<open>
  Claim C2. When some record carries the id, \<open>edit_expense\<close> returns \<open>True\<close> and the
  list changes at one position, that of the first record \<open>e\<close> with the id: the record
  \<open>e'\<close> there has the id of \<open>e\<close>, each field for which an argument was supplied has the
  supplied value (the date as formatted by \<open>strftime\<close>), and each field whose argument is
  \<open>None\<close> has the value it had in \<open>e\<close>; the records before and after are those of the old
  list. When no record carries the id, the result is \<open>False\<close> and the tracker is unchanged.
\<close>

theorem edit_expense_spec:
  "(id_str \<in> id_e ` set (expenses s) \<longrightarrow>
      (\<exists>xs e ys e'. expenses s = xs @ e # ys \<and> id_e e = id_str \<and>
         (\<forall>x \<in> set xs. id_e x \<noteq> id_str) \<and>
         edit_expense s id_str amt cat d nt =
           (True, s\<lparr>expenses := xs @ e' # ys, saved := xs @ e' # ys\<rparr>) \<and>
         id_e e' = id_e e \<and>
         amount e' = (case amt of None \<Rightarrow> amount e | Some a \<Rightarrow> a) \<and>
         category e' = (case cat of None \<Rightarrow> category e | Some c \<Rightarrow> c) \<and>
         date e' = (case d of None \<Rightarrow> date e | Some dt \<Rightarrow> strftime dt) \<and>
         note_e e' = (case nt of None \<Rightarrow> note_e e | Some n \<Rightarrow> n))) \<and>
   (id_str \<notin> id_e ` set (expenses s) \<longrightarrow>
      edit_expense s id_str amt cat d nt = (False, s))"
proof (intro conjI impI)
  assume "id_str \<in> id_e ` set (expenses s)"
  then obtain k where k: "find_by_id_in (expenses s) id_str = Some k"
    using find_by_id_in_None [of "expenses s" id_str] by auto
  let ?es = "expenses s"
  let ?e = "?es ! k"
  define e' where "e' = ?e\<lparr>
      amount := (case amt of None \<Rightarrow> amount ?e | Some a \<Rightarrow> a),
      category := (case cat of None \<Rightarrow> category ?e | Some c \<Rightarrow> c),
      date := (case d of None \<Rightarrow> date ?e | Some dt \<Rightarrow> strftime dt),
      note_e := (case nt of None \<Rightarrow> note_e ?e | Some n \<Rightarrow> n)\<rparr>"
  from find_by_id_in_Some [OF k]
  have kl: "k < length ?es" and kid: "id_e ?e = id_str"
    and kfirst: "\<forall>x \<in> set (take k ?es). id_e x \<noteq> id_str"
    by auto
  have split: "?es = take k ?es @ ?e # drop (Suc k) ?es"
    using kl by (simp add: id_take_nth_drop [symmetric])
  have upd: "?es[k := e'] = take k ?es @ e' # drop (Suc k) ?es"
    using kl by (simp add: upd_conv_take_nth_drop)
  have "edit_expense s id_str amt cat d nt = (True, save (s\<lparr>expenses := ?es[k := e']\<rparr>))"
    using k
    by (cases amt; cases cat; cases d; cases nt)
       (simp_all add: edit_expense_def find_by_id_def e'_def)
  then have "edit_expense s id_str amt cat d nt =
      (True, s\<lparr>expenses := take k ?es @ e' # drop (Suc k) ?es,
               saved := take k ?es @ e' # drop (Suc k) ?es\<rparr>)"
    by (simp add: save_def upd)
  moreover have "id_e e' = id_e ?e"
    "amount e' = (case amt of None \<Rightarrow> amount ?e | Some a \<Rightarrow> a)"
    "category e' = (case cat of None \<Rightarrow> category ?e | Some c \<Rightarrow> c)"
    "date e' = (case d of None \<Rightarrow> date ?e | Some dt \<Rightarrow> strftime dt)"
    "note_e e' = (case nt of None \<Rightarrow> note_e ?e | Some n \<Rightarrow> n)"
    by (simp_all add: e'_def)
  ultimately show "\<exists>xs e ys e'. expenses s = xs @ e # ys \<and> id_e e = id_str \<and>
         (\<forall>x \<in> set xs. id_e x \<noteq> id_str) \<and>
         edit_expense s id_str amt cat d nt =
           (True, s\<lparr>expenses := xs @ e' # ys, saved := xs @ e' # ys\<rparr>) \<and>
         id_e e' = id_e e \<and>
         amount e' = (case amt of None \<Rightarrow> amount e | Some a \<Rightarrow> a) \<and>
         category e' = (case cat of None \<Rightarrow> category e | Some c \<Rightarrow> c) \<and>
         date e' = (case d of None \<Rightarrow> date e | Some dt \<Rightarrow> strftime dt) \<and>
         note_e e' = (case nt of None \<Rightarrow> note_e e | Some n \<Rightarrow> n)"
    using split kid kfirst by blast
next
  assume "id_str \<notin> id_e ` set (expenses s)"
  then have "find_by_id_in (expenses s) id_str = None"
    by (simp add: find_by_id_in_None)
  then show "edit_expense s id_str amt cat d nt = (False, s)"
    by (simp add: edit_expense_def find_by_id_def)
qed

theorem edit_expense_spec_witness:
  "''2'' \<in> id_e ` set (expenses store3) \<and> ''7'' \<notin> id_e ` set (expenses store3) \<and>
   edit_expense store3 ''2'' (Some 7) None None (Some ''cab'') =
     (True, \<lparr>expenses = [lunch, taxi\<lparr>amount := 7, note_e := ''cab''\<rparr>, snack],
             saved = [lunch, taxi\<lparr>amount := 7, note_e := ''cab''\<rparr>, snack]\<rparr>) \<and>
   edit_expense store3 ''7'' (Some 7) None None (Some ''cab'') = (False, store3)"
  using edit_expense_spec [of "''2''" store3 "Some 7" None None "Some ''cab''"]
    edit_expense_spec [of "''7''" store3 "Some 7" None None "Some ''cab''"]
  by (simp add: store3_def lunch_def taxi_def snack_def edit_expense_def find_by_id_def save_def Let_def)

subsection \<open>Listing\<close>

lemma mset_sorted_desc: "mset (sorted_desc es) = mset es"
  by (simp add: sorted_desc_def)

lemma sorted_sorted_desc: "sorted_wrt (\<lambda>x y. date y \<le> date x) (sorted_desc es)"
proof -
  have "sorted (map date (sort_key date (rev es)))" by (rule sorted_sort_key)
  then have "sorted_wrt (\<lambda>x y. date x \<le> date y) (sort_key date (rev es))"
    by (simp add: sorted_map)
  then show ?thesis by (simp add: sorted_desc_def sorted_wrt_rev)
qed

lemma stable_sorted_desc:
  "filter (\<lambda>e. date e = k) (sorted_desc es) = filter (\<lambda>e. date e = k) es"
  by (simp add: sorted_desc_def rev_filter [symmetric] sort_key_stable)

text \<open>
  Claim C7, as the program has it. Without a limit \<open>list_expenses\<close> returns the records
  of the store, each as often as it occurs there, ordered by date string descending.
  With a positive limit \<open>n\<close> it returns the first \<open>n\<close> records of that list. The test
  \<open>if limit\<close> takes the limit 0 for no limit, so that all records are returned, and the
  slice with a negative limit \<open>n\<close> drops the last \<open>-n\<close> records.
\<close>

theorem list_expenses_spec:
  "mset (list_expenses s None) = mset (expenses s) \<and>
   sorted_wrt (\<lambda>x y. date y \<le> date x) (list_expenses s None) \<and>
   (\<forall>n. 0 < n \<longrightarrow> list_expenses s (Some n) = take (nat n) (list_expenses s None)) \<and>
   list_expenses s (Some 0) = list_expenses s None \<and>
   (\<forall>n. n < 0 \<longrightarrow> list_expenses s (Some n) =
      take (length (expenses s) - nat (- n)) (list_expenses s None))"
proof -
  have len: "length (sorted_desc (expenses s)) = length (expenses s)"
    by (simp add: sorted_desc_def)
  show ?thesis
    by (simp add: list_expenses_def slice_to_def mset_sorted_desc sorted_sorted_desc len)
qed

theorem list_expenses_spec_witness:
  "(0::int) < 2 \<and> (-1::int) < 0 \<and>
   list_expenses store3 None = [taxi, snack, lunch] \<and>
   list_expenses store3 (Some 2) = [taxi, snack] \<and>
   list_expenses store3 (Some 0) = [taxi, snack, lunch] \<and>
   list_expenses store3 (Some (-1)) = [taxi, snack]"
proof -
  have a: "list_expenses store3 None = [taxi, snack, lunch]"
    by (simp add: list_expenses_def sorted_desc_def store3_def lunch_def taxi_def snack_def)
  from list_expenses_spec [of store3] have
    "list_expenses store3 (Some 2) = take (nat 2) (list_expenses store3 None)"
    "list_expenses store3 (Some 0) = list_expenses store3 None"
    "list_expenses store3 (Some (-1)) =
       take (length (expenses store3) - nat (- (-1))) (list_expenses store3 None)"
    by simp_all
  with a show ?thesis by (simp add: store3_def)
qed

text \<open>
  Claim C7 as stated has \<open>list(limit)\<close> return the first \<open>limit\<close> records for every
  limit. With the limit 0 that would be no record; the program returns all three.
\<close>

theorem list_expenses_zero_counterexample:
  "list_expenses store3 (Some 0) = [taxi, snack, lunch] \<and>
   take (nat 0) (list_expenses store3 None) = [] \<and>
   list_expenses store3 (Some 0) \<noteq> take (nat 0) (list_expenses store3 None)"
  by (simp add: list_expenses_def sorted_desc_def store3_def lunch_def taxi_def snack_def)

subsection \<open>Filtering\<close>

text \<open>
  The loop of \<open>filter_expenses\<close> raises on a stored date that \<open>strptime\<close> rejects and on
  a bound that is an aware \<open>datetime\<close>. The lemmas below are about the other stores and
  bounds: every stored date parses, and the bounds are naive.
\<close>

lemma selects_naive:
  assumes "\<forall>a. st = Some a \<longrightarrow> tzinfo a = None" "\<forall>b. en = Some b \<longrightarrow> tzinfo b = None"
  shows "selects cat st en e ed =
     Inr ((case cat of None \<Rightarrow> True | Some c \<Rightarrow> c = [] \<or> lower (category e) = lower c) \<and>
          (case st of None \<Rightarrow> True | Some a \<Rightarrow> dt_key a \<le> dt_key ed) \<and>
          (case en of None \<Rightarrow> True | Some b \<Rightarrow> dt_key ed \<le> dt_key b))"
  using assms
  by (cases cat; cases st; cases en)
     (auto simp: selects_def naive_less_def naive_greater_def not_less split: bool.splits)

lemma selects_spec:
  assumes "\<forall>a. st = Some a \<longrightarrow> tzinfo a = None" "\<forall>b. en = Some b \<longrightarrow> tzinfo b = None"
    and "record_date e = Some ed"
  shows "selects cat st en e ed =
     Inr ((case cat of None \<Rightarrow> True | Some c \<Rightarrow> c = [] \<or> lower (category e) = lower c) \<and>
          spec_matches None st en e)"
  using assms(3) selects_naive [OF assms(1,2), of cat e ed]
  by (cases st; cases en) (simp_all add: spec_matches_def)

lemma filter_loop_naive:
  assumes "\<forall>e \<in> set es. record_date e \<noteq> None"
    and "\<forall>a. st = Some a \<longrightarrow> tzinfo a = None" "\<forall>b. en = Some b \<longrightarrow> tzinfo b = None"
  shows "filter_loop cat st en es =
     Inr (filter (\<lambda>e. (case cat of None \<Rightarrow> True | Some c \<Rightarrow> c = [] \<or> lower (category e) = lower c) \<and>
                      spec_matches None st en e) es)"
  using assms(1)
proof (induction es)
  case Nil
  then show ?case by simp
next
  case (Cons e es)
  then obtain ed where ed: "record_date e = Some ed" by auto
  from Cons have IH: "filter_loop cat st en es =
     Inr (filter (\<lambda>e. (case cat of None \<Rightarrow> True | Some c \<Rightarrow> c = [] \<or> lower (category e) = lower c) \<and>
                      spec_matches None st en e) es)"
    by simp
  show ?case
    by (simp add: ed IH selects_spec [OF assms(2,3) ed])
qed

lemma spec_matches_category:
  "((case cat of None \<Rightarrow> True | Some c \<Rightarrow> c = [] \<or> lower (category e) = lower c) \<and>
      spec_matches None st en e) =
   spec_matches (if cat = Some [] then None else cat) st en e"
  by (cases cat) (auto simp: spec_matches_def)

lemma filter_expenses_naive:
  assumes "\<forall>e \<in> set (expenses s). record_date e \<noteq> None"
    and "\<forall>a. st = Some a \<longrightarrow> tzinfo a = None" "\<forall>b. en = Some b \<longrightarrow> tzinfo b = None"
  shows "filter_expenses s cat st en =
     Inr (sorted_desc (filter (\<lambda>e. (case cat of None \<Rightarrow> True | Some c \<Rightarrow> c = [] \<or> lower (category e) = lower c) \<and>
                      spec_matches None st en e) (expenses s)))"
  by (simp add: filter_expenses_def filter_loop_naive [OF assms])

text \<open>
  Claim C4, as the program has it. On a store whose dates all parse, with naive bounds,
  \<open>filter_expenses\<close> returns the records that satisfy every supplied predicate (the
  category equal regardless of case, the date from \<open>start\<close> to \<open>end\<close> inclusive), each
  as often as it occurs in the store, ordered by date string descending; here a category
  that is the empty string counts as not supplied, like \<open>None\<close>.
\<close>

theorem filter_expenses_spec:
  assumes "\<forall>e \<in> set (expenses s). record_date e \<noteq> None"
    and "\<forall>a. st = Some a \<longrightarrow> tzinfo a = None" "\<forall>b. en = Some b \<longrightarrow> tzinfo b = None"
  shows "\<exists>res. filter_expenses s cat st en = Inr res \<and>
           res = sorted_desc
             (filter (spec_matches (if cat = Some [] then None else cat) st en) (expenses s)) \<and>
           mset res =
             filter_mset (spec_matches (if cat = Some [] then None else cat) st en)
               (mset (expenses s)) \<and>
           sorted_wrt (\<lambda>x y. date y \<le> date x) res"
  using filter_expenses_naive [OF assms, of cat]
  by (simp add: spec_matches_category mset_sorted_desc sorted_sorted_desc)

text \<open>The sample records, field by field, and their dates as the loop reads them.\<close>

lemma sample_fields:
  "id_e lunch = ''1''" "amount lunch = 12" "category lunch = ''Food''"
  "date lunch = ''2024-01-01''" "note_e lunch = ''lunch''"
  "id_e taxi = ''2''" "amount taxi = 30" "category taxi = ''transport''"
  "date taxi = ''2024-01-05''" "note_e taxi = []"
  "id_e snack = ''3''" "amount snack = 5" "category snack = ''food''"
  "date snack = ''2024-01-03''" "note_e snack = ''snack''"
  by (simp_all add: lunch_def taxi_def snack_def)

lemmas strptime_simps = strptime_def directive_alts_def two_chars_def one_char_def
  four_digits_def field_or_def days_in_month_def is_leap_def is_digit_def digit_val_def
  lower_char_def is_upper_def char_of_def bit_Suc_0_iff Let_def midnight_def

lemma sample_dates:
  "record_date lunch = Some (midnight 2024 1 1)"
  "record_date taxi = Some (midnight 2024 1 5)"
  "record_date snack = Some (midnight 2024 1 3)"
  by (simp_all add: record_date_def sample_fields strptime_simps)

lemmas filter_simps = filter_expenses_def store3_def sample_fields sample_dates lower_def
  lower_char_def is_upper_def char_of_def bit_Suc_0_iff selects_def naive_less_def naive_greater_def dt_key_def sorted_desc_def
  spec_matches_def midnight_def

theorem filter_expenses_spec_witness:
  "map record_date (expenses store3) =
     [Some (midnight 2024 1 1), Some (midnight 2024 1 5), Some (midnight 2024 1 3)] \<and>
   filter_expenses store3 (Some ''FOOD'') (Some (midnight 2024 1 2)) (Some (midnight 2024 1 3)) =
     Inr [snack] \<and>
   filter (spec_matches (Some ''FOOD'') (Some (midnight 2024 1 2)) (Some (midnight 2024 1 3)))
     (expenses store3) = [snack] \<and>
   filter_expenses store3 (Some []) None (Some (midnight 2024 1 3)) = Inr [snack, lunch] \<and>
   filter (spec_matches None None (Some (midnight 2024 1 3))) (expenses store3) =
     [lunch, snack]"
  using filter_expenses_spec [of store3 "Some (midnight 2024 1 2)" "Some (midnight 2024 1 3)"
      "Some ''FOOD''"]
    filter_expenses_spec [of store3 None "Some (midnight 2024 1 3)" "Some []"]
  by (simp add: filter_simps)

text \<open>
  Claim C4 as stated covers every combination of supplied arguments. With the empty
  string supplied as category, the records whose category equals it regardless of case
  are those with an empty category, none in the sample store; the program returns all
  three records.
\<close>

theorem filter_expenses_empty_category_counterexample:
  "filter_expenses store3 (Some []) None None = Inr [taxi, snack, lunch] \<and>
   filter (spec_matches (Some []) None None) (expenses store3) = []"
  by (simp add: filter_simps)

subsection \<open>The empty category\<close>

lemma filter_loop_empty_category:
  "filter_loop (Some []) st en es = filter_loop None st en es"
proof -
  have "selects (Some []) st en e ed = selects None st en e ed" for e :: "'a expense" and ed
    by (simp add: selects_def)
  then show ?thesis
    by (induction es) (simp_all split: option.split sum.split)
qed

text \<open>
  Claim C9. With the empty string as category \<open>filter_expenses\<close> does what it does with
  no category, on every store and for all bounds. On a store whose dates all parse, with
  naive bounds, that is the list of all records within the bounds, whatever their
  category, ordered by date string descending.
\<close>

theorem empty_category_unfiltered:
  "filter_expenses s (Some []) st en = filter_expenses s None st en \<and>
   ((\<forall>e \<in> set (expenses s). record_date e \<noteq> None) \<and>
    (\<forall>a. st = Some a \<longrightarrow> tzinfo a = None) \<and> (\<forall>b. en = Some b \<longrightarrow> tzinfo b = None) \<longrightarrow>
    filter_expenses s (Some []) st en =
      Inr (sorted_desc (filter (spec_matches None st en) (expenses s))))"
proof (intro conjI impI)
  show "filter_expenses s (Some []) st en = filter_expenses s None st en"
    by (simp add: filter_expenses_def filter_loop_empty_category)
next
  assume a: "(\<forall>e \<in> set (expenses s). record_date e \<noteq> None) \<and>
    (\<forall>a. st = Some a \<longrightarrow> tzinfo a = None) \<and> (\<forall>b. en = Some b \<longrightarrow> tzinfo b = None)"
  then have "filter_expenses s (Some []) st en =
     Inr (sorted_desc (filter (\<lambda>e. (case Some [] of None \<Rightarrow> True
            | Some c \<Rightarrow> c = [] \<or> lower (category e) = lower c) \<and>
          spec_matches None st en e) (expenses s)))"
    by (intro filter_expenses_naive) auto
  then show "filter_expenses s (Some []) st en =
      Inr (sorted_desc (filter (spec_matches None st en) (expenses s)))"
    by simp
qed

theorem empty_category_unfiltered_witness:
  "map record_date (expenses store3) =
     [Some (midnight 2024 1 1), Some (midnight 2024 1 5), Some (midnight 2024 1 3)] \<and>
   tzinfo (midnight 2024 1 2) = None \<and>
   filter_expenses store3 (Some []) (Some (midnight 2024 1 2)) None = Inr [taxi, snack] \<and>
   filter_expenses store3 None (Some (midnight 2024 1 2)) None = Inr [taxi, snack] \<and>
   category taxi \<noteq> []"
  using empty_category_unfiltered [of store3 "Some (midnight 2024 1 2)" None]
  by (simp add: filter_simps)

subsection \<open>Totals\<close>



subsection \<open>Summary by category\<close>

lemma summary_loop_dom: "dom (summary_loop m es) = dom m \<union> category ` set es"
  by (induction es arbitrary: m) auto

lemma summary_loop_value:
  "summary_loop m es c =
     (if c \<in> category ` set es
      then Some (foldl (+) (case m c of None \<Rightarrow> 0 | Some v \<Rightarrow> v)
                   (map amount (filter (\<lambda>e. category e = c) es)))
      else m c)"
proof (induction es arbitrary: m)
  case Nil
  then show ?case by simp
next
  case (Cons e es)
  show ?case
  proof (cases "category e = c")
    case True
    have "filter (\<lambda>x. category x = c) es = []" if "c \<notin> category ` set es"
      using that by (induction es) auto
    with True show ?thesis
      by (cases "m c") (auto simp: Cons.IH)
  next
    case False
    then show ?thesis by (simp add: Cons.IH)
  qed
qed

text \<open>
  Claim C10. \<open>summary_by_category\<close> raises when \<open>filter_expenses\<close> does, and otherwise its
  keys are the category strings of the selected records as they are stored, and the
  value at a key is the sum of the amounts of the selected records whose category is
  that very string. Two categories that differ, even by case only, are two keys.
\<close>

theorem summary_by_category_spec:
  "(case filter_expenses s None st en of
      Inl err \<Rightarrow> summary_by_category s st en = Inl err
    | Inr selected \<Rightarrow>
        (\<exists>m. summary_by_category s st en = Inr m \<and>
           dom m = category ` set selected \<and>
           (\<forall>c \<in> dom m.
              m c = Some (py_sum (map amount (filter (\<lambda>e. category e = c) selected))))))"
proof (cases "filter_expenses s None st en")
  case (Inl err)
  then show ?thesis by (simp add: summary_by_category_def)
next
  case (Inr selected)
  have "dom (summary_loop Map.empty selected) = category ` set selected"
    by (simp add: summary_loop_dom)
  moreover have "\<forall>c \<in> category ` set selected.
      summary_loop Map.empty selected c =
        Some (py_sum (map amount (filter (\<lambda>e. category e = c) selected)))"
    by (simp add: summary_loop_value py_sum_def)
  ultimately show ?thesis
    using Inr by (simp add: summary_by_category_def)
qed

theorem summary_by_category_spec_witness:
  "filter_expenses store3 None None None = Inr [taxi, snack, lunch] \<and>
   (\<exists>m. summary_by_category store3 None None = Inr m \<and>
      dom m = {''Food'', ''food'', ''transport''} \<and>
      m ''Food'' = Some 12 \<and> m ''food'' = Some 5 \<and> m ''transport'' = Some 30) \<and>
   lower ''Food'' = lower ''food''"
proof -
  have f: "filter_expenses store3 None None None = Inr [taxi, snack, lunch]"
    by (simp add: filter_simps)
  from summary_by_category_spec [of store3 None None] f
  obtain m where m: "summary_by_category store3 None None = Inr m"
    "dom m = category ` set [taxi, snack, lunch]"
    "\<forall>c \<in> dom m. m c = Some (py_sum (map amount (filter (\<lambda>e. category e = c) [taxi, snack, lunch])))"
    by auto
  from m(2) have d: "dom m = {''Food'', ''food'', ''transport''}"
    by (auto simp: sample_fields)
  with m(3) have "m ''Food'' = Some 12" "m ''food'' = Some 5" "m ''transport'' = Some 30"
    by (simp_all add: sample_fields py_sum_def)
  with m(1) d f show ?thesis by (simp add: lower_def lower_char_def is_upper_def char_of_def bit_Suc_0_iff)
qed

subsection \<open>Parsing dates\<close>

text \<open>
  Claim C8. \<open>parse_date\<close> strips the text. It returns the clock's reading when the
  stripped text is empty or is \<open>today\<close> or \<open>t\<close> up to case. Otherwise it returns the parse
  by the first of \<open>%Y-%m-%d\<close>, \<open>%d-%m-%Y\<close>, \<open>%d/%m/%Y\<close> that accepts the text, in this order,
  and when none does, the result of \<open>fromisoformat\<close>. It raises, and then \<open>ValueError\<close>,
  exactly when the text is no token for now and all four parses fail. The text
  \<open>01-02-2024\<close> is read day first, as 1 February 2024.
\<close>

theorem parse_date_spec:
  "parse_date rt text =
     (let t = strip text in
      if t = [] \<or> lower t = ''today'' \<or> lower t = ''t'' then Inr (today rt)
      else
        (case strptime t ''%Y-%m-%d'' of
           Some d \<Rightarrow> Inr d
         | None \<Rightarrow>
             (case strptime t ''%d-%m-%Y'' of
                Some d \<Rightarrow> Inr d
              | None \<Rightarrow>
                  (case strptime t ''%d/%m/%Y'' of
                     Some d \<Rightarrow> Inr d
                   | None \<Rightarrow>
                       (case fromisoformat rt t of
                          Some d \<Rightarrow> Inr d
                        | None \<Rightarrow> Inl ValueError))))) \<and>
   ((\<exists>err. parse_date rt text = Inl err) =
      (strip text \<noteq> [] \<and> lower (strip text) \<noteq> ''today'' \<and> lower (strip text) \<noteq> ''t'' \<and>
       strptime (strip text) ''%Y-%m-%d'' = None \<and> strptime (strip text) ''%d-%m-%Y'' = None \<and>
       strptime (strip text) ''%d/%m/%Y'' = None \<and> fromisoformat rt (strip text) = None)) \<and>
   ((\<exists>err. parse_date rt text = Inl err) = (parse_date rt text = Inl ValueError)) \<and>
   parse_date rt ''01-02-2024'' = Inr (midnight 2024 2 1)"
proof (intro conjI)
  have "strip ''01-02-2024'' = ''01-02-2024''" by (simp add: strip_def is_space_def)
  moreover have "lower ''01-02-2024'' = ''01-02-2024''" by (simp add: lower_def lower_char_def is_upper_def char_of_def bit_Suc_0_iff)
  moreover have "strptime ''01-02-2024'' ''%Y-%m-%d'' = None"
    "strptime ''01-02-2024'' ''%d-%m-%Y'' = Some (midnight 2024 2 1)"
    by (simp_all add: strptime_simps)
  ultimately show "parse_date rt ''01-02-2024'' = Inr (midnight 2024 2 1)"
    by (simp add: parse_date_def)
qed (auto simp: parse_date_def Let_def split: option.splits)

theorem parse_date_spec_witness:
  "parse_date sample_rt ''  ToDay '' = Inr (today sample_rt) \<and>
   parse_date sample_rt [CHR 0xA0, CHR ''T'', CHR 0x85] = Inr (today sample_rt) \<and>
   parse_date sample_rt ''5/3/2024'' = Inr (midnight 2024 3 5) \<and>
   parse_date sample_rt ''2024-03-05T08:00:00'' = Inr ((midnight 2024 3 5)\<lparr>hour := 8\<rparr>) \<and>
   parse_date sample_rt ''2023-02-29'' = Inl ValueError"
proof -
  have s: "strip ''  ToDay '' = ''ToDay''" "strip ''5/3/2024'' = ''5/3/2024''"
    "strip [CHR 0xA0, CHR ''T'', CHR 0x85] = ''T''"
    "strip ''2024-03-05T08:00:00'' = ''2024-03-05T08:00:00''"
    "strip ''2023-02-29'' = ''2023-02-29''"
    by (simp_all add: strip_def is_space_def)
  have l: "lower ''ToDay'' = ''today''" "lower ''5/3/2024'' = ''5/3/2024''"
    "lower ''T'' = ''t''"
    "lower ''2024-03-05T08:00:00'' = ''2024-03-05t08:00:00''"
    "lower ''2023-02-29'' = ''2023-02-29''"
    by (simp_all add: lower_def lower_char_def is_upper_def char_of_def bit_Suc_0_iff)
  have p: "strptime ''5/3/2024'' ''%Y-%m-%d'' = None" "strptime ''5/3/2024'' ''%d-%m-%Y'' = None"
    "strptime ''5/3/2024'' ''%d/%m/%Y'' = Some (midnight 2024 3 5)"
    "strptime ''2024-03-05T08:00:00'' ''%Y-%m-%d'' = None"
    "strptime ''2024-03-05T08:00:00'' ''%d-%m-%Y'' = None"
    "strptime ''2024-03-05T08:00:00'' ''%d/%m/%Y'' = None"
    "strptime ''2023-02-29'' ''%Y-%m-%d'' = None" "strptime ''2023-02-29'' ''%d-%m-%Y'' = None"
    "strptime ''2023-02-29'' ''%d/%m/%Y'' = None"
    by (simp_all add: strptime_simps)
  have f: "fromisoformat sample_rt ''2024-03-05T08:00:00'' =
      Some ((midnight 2024 3 5)\<lparr>hour := 8\<rparr>)"
    "fromisoformat sample_rt ''2023-02-29'' = None"
    by (simp_all add: sample_rt_def midnight_def)
  from parse_date_spec [of sample_rt "''  ToDay ''"] parse_date_spec [of sample_rt "''5/3/2024''"]
    parse_date_spec [of sample_rt "[CHR 0xA0, CHR ''T'', CHR 0x85]"]
    parse_date_spec [of sample_rt "''2024-03-05T08:00:00''"]
    parse_date_spec [of sample_rt "''2023-02-29''"]
  show ?thesis by (simp add: s l p f)
qed

subsection \<open>Import\<close>

lemma import_record_skips:
  "parsed_fields rt obj = None \<Longrightarrow> \<exists>err. import_record rt s obj = Inl err"
  by (auto simp: parsed_fields_def import_record_def split: option.splits sum.splits)

lemma import_record_adds:
  "parsed_fields rt obj = Some (amt, cat, d, nt) \<Longrightarrow> next_id s = Inr n \<Longrightarrow>
     import_record rt s obj = add_expense s amt cat d nt"
  by (auto simp: parsed_fields_def import_record_def add_expense_def
           split: option.splits sum.splits)

lemma import_record_no_id:
  "next_id s = Inl err \<Longrightarrow> \<exists>err'. import_record rt s obj = Inl err'"
  by (auto simp: import_record_def split: option.splits sum.splits)

lemma import_loop_no_id: "next_id s = Inl err \<Longrightarrow> import_loop rt s data = s"
proof (induction data)
  case Nil
  then show ?case by simp
next
  case (Cons obj data)
  from import_record_no_id [OF Cons.prems, of rt obj] obtain err' where
    "import_record rt s obj = Inl err'" by blast
  with Cons show ?case by simp
qed

lemma import_loop_full:
  assumes "next_id s = Inr n" "py_str n = None"
  shows "import_loop rt s data = s"
proof (induction data)
  case Nil
  then show ?case by simp
next
  case (Cons obj data)
  have "\<exists>err. import_record rt s obj = Inl err"
  proof (cases "parsed_fields rt obj")
    case None
    then show ?thesis by (rule import_record_skips)
  next
    case (Some f)
    obtain amt cat d nt where "f = (amt, cat, d, nt)" by (cases f) auto
    with Some import_record_adds [OF _ assms(1), of rt obj amt cat d nt]
      add_expense_raises [OF assms, of amt cat d nt]
    show ?thesis by simp
  qed
  with Cons show ?case by auto
qed

lemma import_loop_spec:
  assumes "next_id s = Inr n"
  shows "expenses (import_loop rt s data) =
           expenses s @ numbered n (List.map_filter (parsed_fields rt) data)"
  using assms
proof (induction data arbitrary: s n)
  case Nil
  then show ?case by simp
next
  case (Cons obj data)
  show ?case
  proof (cases "parsed_fields rt obj")
    case None
    from import_record_skips [OF None, of s] obtain err where
      "import_record rt s obj = Inl err" by blast
    with None Cons show ?thesis by simp
  next
    case (Some f)
    obtain amt cat d nt where f: "f = (amt, cat, d, nt)" by (cases f) auto
    have rec: "import_record rt s obj = add_expense s amt cat d nt"
      using Some f Cons.prems by (simp add: import_record_adds)
    show ?thesis
    proof (cases "py_str n")
      case None
      from import_loop_full [OF Cons.prems None, of rt "obj # data"] Some f None
      show ?thesis by simp
    next
      case i: (Some i)
      from add_expense_appends [OF Cons.prems i, of amt cat d nt] obtain s' where
        s': "add_expense s amt cat d nt =
              Inr (s', \<lparr>id_e = i, amount = amt, category = strip cat, date = strftime d,
                        note_e = strip nt\<rparr>)"
            "expenses s' = expenses s @ [\<lparr>id_e = i, amount = amt, category = strip cat,
                                        date = strftime d, note_e = strip nt\<rparr>]"
            "next_id s' = Inr (n + 1)"
        by auto
      from rec s'(1) have "import_loop rt s (obj # data) = import_loop rt s' data" by simp
      with Cons.IH [OF s'(3)] s'(2) Some f i show ?thesis by simp
    qed
  qed
qed

text \<open>
  Claim C6, as the program has it. \<open>import_from_json\<close> of a file that holds a list of
  objects does not raise, whatever the store. On a store whose ids \<open>int\<close> accepts, so
  that \<open>_next_id\<close> returns some \<open>n\<close>, the records of the store stay, in place, and after
  them come the records that \<open>add_expense\<close> makes of the objects whose fields all
  convert, in the order of the file, with ids counting up from \<open>n\<close> (and ending where an
  id would have more digits than the interpreter converts); the other objects leave no
  trace. On a store with an id that \<open>int\<close> rejects, \<open>_next_id\<close> raises inside every
  call, the loop drops the error, and the tracker is left as it was. An object whose
  amount \<open>float\<close> rejects, or whose date \<open>parse_date\<close> rejects, is among those skipped.
\<close>

theorem import_from_json_spec:
  "\<exists>s'. import_from_json rt s (Some data) = Inr s' \<and>
     (case next_id s of
        Inr n \<Rightarrow>
          expenses s' = expenses s @ numbered n (List.map_filter (parsed_fields rt) data)
      | Inl err \<Rightarrow> s' = s) \<and>
     (numeric_ids s \<longrightarrow>
        next_id s = Inr (if expenses s = [] then 1 else Max (id_num ` set (expenses s)) + 1)) \<and>
     (\<forall>obj a err. map_of obj ''amount'' = Some a \<and> py_float rt a = Inl err \<longrightarrow>
        parsed_fields rt obj = None) \<and>
     (\<forall>obj t err. get_or obj ''date'' (JStr []) = JStr t \<and> parse_date rt t = Inl err \<longrightarrow>
        parsed_fields rt obj = None)"
proof -
  have l: "case next_id s of
        Inr n \<Rightarrow> expenses (import_loop rt s data) =
          expenses s @ numbered n (List.map_filter (parsed_fields rt) data)
      | Inl err \<Rightarrow> import_loop rt s data = s"
    by (simp add: import_loop_spec import_loop_no_id split: sum.split)
  have n: "numeric_ids s \<longrightarrow>
        next_id s = Inr (if expenses s = [] then 1 else Max (id_num ` set (expenses s)) + 1)"
    by (simp add: next_id_numeric)
  have a: "\<forall>obj a err. map_of obj ''amount'' = Some a \<and> py_float rt a = Inl err \<longrightarrow>
        parsed_fields rt obj = None"
    by (simp add: parsed_fields_def)
  have d: "\<forall>obj t err. get_or obj ''date'' (JStr []) = JStr t \<and> parse_date rt t = Inl err \<longrightarrow>
        parsed_fields rt obj = None"
    by (auto simp: parsed_fields_def as_str_def split: option.splits sum.splits)
  from l n a d show ?thesis
    by (simp add: import_from_json_def)
qed

lemma import_data_parsed:
  "List.map_filter (parsed_fields sample_rt) import_data =
     [(40, '' rent '', midnight 2024 4 3, [])]"
proof -
  have d: "parse_date sample_rt ''03/04/2024'' = Inr (midnight 2024 4 3)"
  proof -
    have "strip ''03/04/2024'' = ''03/04/2024''" by (simp add: strip_def is_space_def)
    moreover have "lower ''03/04/2024'' = ''03/04/2024''"
      by (simp add: lower_def lower_char_def is_upper_def)
    moreover have "strptime ''03/04/2024'' ''%Y-%m-%d'' = None"
      "strptime ''03/04/2024'' ''%d-%m-%Y'' = None"
      "strptime ''03/04/2024'' ''%d/%m/%Y'' = Some (midnight 2024 4 3)"
      by (simp_all add: strptime_simps)
    ultimately show ?thesis by (simp add: parse_date_def)
  qed
  have t: "parse_date sample_rt [] = Inr (today sample_rt)"
    by (simp add: parse_date_def strip_def)
  have c: "float_of_int sample_rt 40 = Some 40" "float_of_str sample_rt ''abc'' = None"
    by (simp_all add: sample_rt_def sample_numerals)
  show ?thesis
    by (simp add: import_data_def parsed_fields_def py_float_def as_str_def get_or_def d t c)
qed

theorem import_from_json_spec_witness:
  "numeric_ids store3 \<and> next_id store3 = Inr 4 \<and>
   List.map_filter (parsed_fields sample_rt) import_data =
     [(40, '' rent '', midnight 2024 4 3, [])] \<and>
   (\<exists>s'. import_from_json sample_rt store3 (Some import_data) = Inr s' \<and>
      expenses s' = [lunch, taxi, snack,
        \<lparr>id_e = ''4'', amount = 40, category = ''rent'', date = ''2024-04-03'', note_e = []\<rparr>] \<and>
      length (expenses s') = length (expenses store3) + 1)"
proof -
  have ok: "numeric_ids store3"
    by (simp add: numeric_ids_def store3_def sample_fields sample_numerals)
  have n: "next_id store3 = Inr 4"
    by (simp add: next_id_def store3_def sample_fields sample_numerals)
  have f: "strftime (midnight 2024 4 3) = ''2024-04-03''" "strip '' rent '' = ''rent''"
    "strip [] = []"
    by (simp_all add: strftime_def zfill_def midnight_def str_nat.simps digit_char_def strip_def
          is_space_def)
  from import_from_json_spec [of sample_rt store3 import_data] n import_data_parsed
  obtain s' where s': "import_from_json sample_rt store3 (Some import_data) = Inr s'"
    "expenses s' = expenses store3 @ numbered 4 [(40, '' rent '', midnight 2024 4 3, [])]"
    by auto
  from s'(2) have "expenses s' = [lunch, taxi, snack,
        \<lparr>id_e = ''4'', amount = 40, category = ''rent'', date = ''2024-04-03'', note_e = []\<rparr>]"
    by (simp add: store3_def f sample_numerals)
  with s'(1) ok n import_data_parsed show ?thesis by (simp add: store3_def)
qed

text \<open>
  Claim C6 as stated has the import add the records that parse, for every file. The
  first object of the sample file parses, and on the store whose one record has the id
  \<open>abc\<close> the import returns without raising and adds nothing.
\<close>

theorem import_from_json_bad_id_counterexample:
  "List.map_filter (parsed_fields sample_rt) import_data =
     [(40, '' rent '', midnight 2024 4 3, [])] \<and>
   next_id store_abc = Inl ValueError \<and>
   import_from_json sample_rt store_abc (Some import_data) = Inr store_abc"
proof -
  have n: "next_id store_abc = Inl ValueError"
    by (simp add: next_id_def store_abc_def sample_numerals)
  from import_loop_no_id [OF n, of sample_rt import_data]
  have "import_from_json sample_rt store_abc (Some import_data) = Inr store_abc"
    by (simp add: import_from_json_def)
  with n import_data_parsed show ?thesis by simp
qed

subsection \<open>Corner cases of the library\<close>

text \<open>
  White space and capital letters beyond ASCII, the separators that \<open>strip\<close> removes and
  \<open>int\<close> does not, and a year of three digits, which \<open>strftime\<close> writes as it is and
  \<open>strptime\<close> does not read back.
\<close>

lemma library_corner_cases:
  "strip [CHR 0xA0, CHR ''a'', CHR 0x85, CHR 0x1C] = ''a''"
  "lower [CHR ''C'', CHR ''A'', CHR ''F'', CHR 0xC9] = [CHR ''c'', CHR ''a'', CHR ''f'', CHR 0xE9]"
  "lower [CHR 0xD7, CHR 0xDF, CHR 0xFF] = [CHR 0xD7, CHR 0xDF, CHR 0xFF]"
  "py_int [CHR 0x1C, CHR ''7'', CHR 0x1F] = None"
  "py_int [CHR 0xA0, CHR ''7'', CHR 0x85] = Some 7"
  "strftime (midnight 999 1 1) = ''999-01-01''"
  "strptime ''999-01-01'' ''%Y-%m-%d'' = None"
  by (simp_all add: strip_def is_space_def lower_def lower_char_def is_upper_def char_of_def
        bit_Suc_0_iff py_int_def int_strip_def is_int_space_def nat_literal_def is_digit_def
        digit_val_def int_max_str_digits_def strftime_def zfill_def midnight_def str_nat.simps
        digit_char_def strptime_def directive_alts_def four_digits_def Let_def)

end
